theory Spec2Isabelle
  imports Main "HOL-Library.Multiset" "HOL-Library.AList"
begin

section \<open>Strings and paths\<close>

text \<open>
  Python strings are modelled as \<open>string\<close>; a \<open>char\<close> stands for one code point
  below 256. The functions of this section follow the POSIX versions of the library
  functions that \<^verbatim>\<open>get_version.py\<close> calls on strings and paths.
\<close>

definition is_digit :: "char \<Rightarrow> bool" where
  \<comment> \<open>\<^verbatim>\<open>\d\<close> of \<^verbatim>\<open>re\<close> on a \<^verbatim>\<open>str\<close>: below 256 the decimal digits are 0 to 9.\<close>
  "is_digit c = (c \<in> set ''0123456789'')"

definition is_space :: "char \<Rightarrow> bool" where
  \<comment> \<open>the code points below 256 that \<^verbatim>\<open>str.strip()\<close> removes\<close>
  "is_space c = ((of_char c :: nat) \<in> set [9, 10, 11, 12, 13, 28, 29, 30, 31, 32, 133, 160])"

definition strip :: "string \<Rightarrow> string" where
  "strip s = rev (dropWhile is_space (rev (dropWhile is_space s)))"

definition startswith :: "string \<Rightarrow> string \<Rightarrow> bool" where
  "startswith s p = (take (length p) s = p)"

definition endswith :: "string \<Rightarrow> string \<Rightarrow> bool" where
  "endswith s p = (length p \<le> length s \<and> drop (length s - length p) s = p)"

fun replace_slash :: "string \<Rightarrow> string" where
  \<comment> \<open>\<^verbatim>\<open>repo.replace("/", "__")\<close>\<close>
  "replace_slash [] = []"
| "replace_slash (c # cs) = (if c = CHR ''/'' then ''__'' @ replace_slash cs else c # replace_slash cs)"

fun split_slash :: "string \<Rightarrow> string list" where
  \<comment> \<open>\<^verbatim>\<open>repo.split("/")\<close>: never empty\<close>
  "split_slash [] = [[]]"
| "split_slash (c # cs) =
     (if c = CHR ''/'' then [] # split_slash cs
      else (case split_slash cs of [] \<Rightarrow> [[c]] | p # ps \<Rightarrow> (c # p) # ps))"

definition join2 :: "string \<Rightarrow> string \<Rightarrow> string" where
  \<comment> \<open>one step of \<^verbatim>\<open>posixpath.join\<close>\<close>
  "join2 path b =
     (if startswith b ''/'' then b
      else if path = [] \<or> endswith path ''/'' then path @ b
      else path @ ''/'' @ b)"

definition join :: "string \<Rightarrow> string list \<Rightarrow> string" where
  \<comment> \<open>\<^verbatim>\<open>os.path.join(a, *p)\<close>\<close>
  "join a p = foldl join2 a p"

definition rfind :: "char \<Rightarrow> string \<Rightarrow> int" where
  \<comment> \<open>\<^verbatim>\<open>str.rfind\<close> of one character: the last index, or -1\<close>
  "rfind c s = (case find (\<lambda>i. s ! i = c) (rev [0..<length s]) of None \<Rightarrow> -1 | Some i \<Rightarrow> int i)"

definition splitext :: "string \<Rightarrow> string \<times> string" where
  \<comment> \<open>\<^verbatim>\<open>os.path.splitext\<close>: the extension starts at the last dot of the last
      component, unless only dots precede it there\<close>
  "splitext p =
     (let sepIndex = rfind (CHR ''/'') p; dotIndex = rfind (CHR ''.'') p
      in if dotIndex > sepIndex \<and>
            (\<exists>k \<in> set [nat (sepIndex + 1)..<nat dotIndex]. p ! k \<noteq> CHR ''.'')
         then (take (nat dotIndex) p, drop (nat dotIndex) p)
         else (p, []))"

definition dirname :: "string \<Rightarrow> string" where
  \<comment> \<open>\<^verbatim>\<open>os.path.dirname\<close>\<close>
  "dirname p =
     (let head = take (nat (rfind (CHR ''/'') p + 1)) p
      in if head \<noteq> [] \<and> head \<noteq> replicate (length head) (CHR ''/'')
         then rev (dropWhile (\<lambda>c. c = CHR ''/'') (rev head)) else head)"

section \<open>The version pattern\<close>

text \<open>
  \<^verbatim>\<open>re.search(r"(\d+\.\d+)(?:\.\d+)?", version)\<close> and its group 1. At a start position
  the first \<^verbatim>\<open>\d+\<close> must take the whole run of digits (a shorter one is followed by a
  digit, not by the dot), the group ends with the whole second run (the quantifier is
  greedy), and the optional patch part never makes the match fail. The search takes the
  leftmost start position that matches.
\<close>

definition match_here :: "string \<Rightarrow> string option" where
  "match_here s =
     (let major = takeWhile is_digit s; rest = dropWhile is_digit s
      in if major = [] then None
         else (case rest of
                 [] \<Rightarrow> None
               | c # rest' \<Rightarrow>
                   if c \<noteq> CHR ''.'' then None
                   else (let minor = takeWhile is_digit rest'
                         in if minor = [] then None else Some (major @ ''.'' @ minor))))"

fun version_search :: "string \<Rightarrow> string option" where
  "version_search [] = None"
| "version_search (c # cs) =
     (case match_here (c # cs) of Some g \<Rightarrow> Some g | None \<Rightarrow> version_search cs)"

text \<open>
  The patterns as the specification words them, by positions: \<open>major_minor_at s\<close> says that
  \<open>s\<close> starts with digits, a dot and digits; \<open>pattern_occurs s\<close> that this happens somewhere
  in \<open>s\<close>; \<open>full_major_minor s\<close> that the whole of \<open>s\<close> is digits, a dot and digits
  (\<^verbatim>\<open>^\d+\.\d+$\<close>).
\<close>

definition major_minor_at :: "string \<Rightarrow> bool" where
  "major_minor_at s =
     (\<exists>n \<in> {1..length s}. \<exists>m \<in> {1..length s}.
        n + 1 + m \<le> length s \<and> list_all is_digit (take n s) \<and> s ! n = CHR ''.'' \<and>
        list_all is_digit (take m (drop (n + 1) s)))"

definition pattern_occurs :: "string \<Rightarrow> bool" where
  "pattern_occurs s = (\<exists>i \<in> {0..length s}. major_minor_at (drop i s))"

definition full_major_minor :: "string \<Rightarrow> bool" where
  "full_major_minor s =
     (\<exists>n \<in> {1..length s}. n + 1 < length s \<and> list_all is_digit (take n s) \<and>
        s ! n = CHR ''.'' \<and> list_all is_digit (drop (n + 1) s))"

section \<open>Tasks, exceptions, the file system\<close>

datatype jval = JStr string | JOther nat
  \<comment> \<open>a JSON value: a string, or any other value (opaque)\<close>

type_synonym task = "(string \<times> jval) list"
  \<comment> \<open>a \<^verbatim>\<open>dict\<close> with its keys in insertion order; \<open>map_of\<close> reads a key and
      \<open>AList.update\<close> assigns one (in place when the key is present, at the end otherwise)\<close>

datatype exn =
    KeyError string
  | TypeError
  | AttributeError
  | RuntimeError string
  | NotADirectoryError string
  | FileNotFoundError string
  | FileExistsError string
  | IsADirectoryError string
  | CalledProcessError "string list"
  | ValueError
  | CopyError string
  | BrokenProcessPool

datatype node = File | Dir

type_synonym filesys = "string \<Rightarrow> node option"

datatype style = Lines | Array

datatype action =
    Rmtree string
  | Copytree string string
  | Run "string list" string
  | Chdir string
  | Makedirs string
  | Write string style "task list"

record world =
  cwd :: string
  fs :: filesys
  log :: "action list"

text \<open>
  What the code does not decide is a parameter: the external programs (here always git),
  \<^verbatim>\<open>shutil.copytree\<close>, which paths the file system refuses to remove, and the two path
  functions that read the process environment.
\<close>

record env =
  subprocess_run :: "string list \<Rightarrow> string \<Rightarrow> filesys \<Rightarrow> string option \<times> filesys"
  copytree :: "string \<Rightarrow> string \<Rightarrow> filesys \<Rightarrow> bool \<times> filesys"
  undeletable :: "string \<Rightarrow> bool"
  expanduser :: "string \<Rightarrow> string"
  abspath :: "string \<Rightarrow> string"
  read_json :: "string \<Rightarrow> style \<Rightarrow> filesys \<Rightarrow> exn + task list"
  as_completed :: "nat \<Rightarrow> nat list"

definition exists :: "filesys \<Rightarrow> string \<Rightarrow> bool" where
  "exists f p = (f p \<noteq> None)"

definition isdir :: "filesys \<Rightarrow> string \<Rightarrow> bool" where
  "isdir f p = (f p = Some Dir)"

definition isfile :: "filesys \<Rightarrow> string \<Rightarrow> bool" where
  "isfile f p = (f p = Some File)"

definition under :: "string \<Rightarrow> string \<Rightarrow> bool" where
  \<comment> \<open>\<open>q\<close> is \<open>p\<close> or lies below it\<close>
  "under p q = (q = p \<or> startswith q (if endswith p ''/'' then p else p @ ''/''))"

definition rmtree :: "env \<Rightarrow> string \<Rightarrow> world \<Rightarrow> world" where
  \<comment> \<open>\<^verbatim>\<open>shutil.rmtree(path, ignore_errors=True)\<close>: never raises; a tree that cannot be
      removed, or a path that is no directory, is left as it is\<close>
  "rmtree e p w =
     w\<lparr>fs := (if undeletable e p \<or> \<not> isdir (fs w) p then fs w
               else (\<lambda>q. if under p q then None else fs w q)),
       log := log w @ [Rmtree p]\<rparr>"

definition and_then ::
  "(exn + 'a) \<times> world \<Rightarrow> ('a \<Rightarrow> world \<Rightarrow> (exn + 'b) \<times> world) \<Rightarrow> (exn + 'b) \<times> world" where
  \<comment> \<open>one statement after another: an exception skips the rest\<close>
  "and_then m f = (case m of (Inl x, w) \<Rightarrow> (Inl x, w) | (Inr a, w) \<Rightarrow> f a w)"

definition chdir :: "string \<Rightarrow> world \<Rightarrow> (exn + unit) \<times> world" where
  "chdir p w =
     (if isdir (fs w) p then (Inr (), w\<lparr>cwd := p, log := log w @ [Chdir p]\<rparr>)
      else (Inl (FileNotFoundError p), w))"

definition cd :: "env \<Rightarrow> string \<Rightarrow> (world \<Rightarrow> (exn + 'a) \<times> world) \<Rightarrow> world \<Rightarrow> (exn + 'a) \<times> world" where
  \<comment> \<open>the context manager \<^verbatim>\<open>cd\<close>: the return to \<^verbatim>\<open>prevdir\<close> is in a \<^verbatim>\<open>finally\<close>\<close>
  "cd e newdir body w =
     (let prevdir = cwd w
      in and_then (chdir (expanduser e newdir) w)
           (\<lambda>_ w1. case body w1 of
                      (r, w2) \<Rightarrow> (case chdir prevdir w2 of
                                     (Inl x, w3) \<Rightarrow> (Inl x, w3)
                                   | (Inr _, w3) \<Rightarrow> (r, w3))))"

definition run_command :: "env \<Rightarrow> string list \<Rightarrow> world \<Rightarrow> (exn + string) \<times> world" where
  \<comment> \<open>\<^verbatim>\<open>subprocess.run(cmd, check=True, ...)\<close>: a non-zero exit raises\<close>
  "run_command e cmd w =
     (case subprocess_run e cmd (cwd w) (fs w) of
        (out, f) \<Rightarrow>
          (let w' = w\<lparr>fs := f, log := log w @ [Run cmd (cwd w)]\<rparr>
           in case out of None \<Rightarrow> (Inl (CalledProcessError cmd), w')
              | Some stdout \<Rightarrow> (Inr stdout, w')))"

definition is_git_repo_path :: "filesys \<Rightarrow> string \<Rightarrow> bool" where
  "is_git_repo_path f path =
     (if \<not> isdir f path then False
      else if isdir f (join path [''.git'']) then True
      else isfile f (join path [''HEAD'']) \<and> isdir f (join path [''objects'']))"

definition get_version_by_git :: "env \<Rightarrow> string \<Rightarrow> world \<Rightarrow> (exn + string) \<times> world" where
  "get_version_by_git e cloned_dir w =
     (if \<not> isdir (fs w) cloned_dir then (Inl (NotADirectoryError cloned_dir), w)
      else cd e cloned_dir
             (\<lambda>w1. and_then (run_command e [''git'', ''describe'', ''--tags''] w1)
                (\<lambda>stdout w2.
                   let version = strip stdout
                   in (case version_search version of
                         Some g \<Rightarrow> (Inr g, w2)
                       | None \<Rightarrow> (Inl (RuntimeError (''Unrecognized version: '' @ version)), w2))))
             w)"


section \<open>Building the repository cache\<close>

definition parents :: "string \<Rightarrow> string list" where
  \<comment> \<open>the directories above a path, outermost first\<close>
  "parents p = map (\<lambda>i. take i p) (filter (\<lambda>i. p ! i = CHR ''/'') [1..<length p])"

definition makedirs :: "string \<Rightarrow> world \<Rightarrow> (exn + unit) \<times> world" where
  \<comment> \<open>\<^verbatim>\<open>os.makedirs(name, exist_ok=True)\<close>: the empty name is refused, as \<^verbatim>\<open>mkdir("")\<close> is\<close>
  "makedirs name w =
     (if name = [] then (Inl (FileNotFoundError name), w)
      else if isfile (fs w) name then (Inl (FileExistsError name), w)
      else if \<exists>q \<in> set (parents name). isfile (fs w) q then (Inl (NotADirectoryError name), w)
      else (Inr (), w\<lparr>fs := (\<lambda>q. if q \<in> set (parents name @ [name]) then Some Dir else fs w q),
                       log := log w @ [Makedirs name]\<rparr>))"

definition truthy :: "string option \<Rightarrow> bool" where
  \<comment> \<open>\<^verbatim>\<open>if s:\<close> on an optional string\<close>
  "truthy s = (case s of None \<Rightarrow> False | Some x \<Rightarrow> x \<noteq> [])"

definition candidates :: "string \<Rightarrow> string \<Rightarrow> string list" where
  "candidates local_cache_dir repo =
     (let owner_repo_flat = replace_slash repo
      in [join local_cache_dir [owner_repo_flat],
          join local_cache_dir [owner_repo_flat @ ''.git''],
          join local_cache_dir (split_slash repo),
          join local_cache_dir (split_slash repo) @ ''.git'',
          join local_cache_dir [last (split_slash repo)],
          join local_cache_dir [last (split_slash repo) @ ''.git'']])"

fun prepare_loop ::
  "env \<Rightarrow> string \<Rightarrow> string option \<Rightarrow> bool \<Rightarrow> task list \<Rightarrow> (string \<rightharpoonup> string) \<Rightarrow> world
     \<Rightarrow> (exn + (string \<rightharpoonup> string)) \<times> world" where
  "prepare_loop e cache_dir local_cache_dir skip_missing_repo [] repo_cache w = (Inr repo_cache, w)"
| "prepare_loop e cache_dir local_cache_dir skip_missing_repo (task # tasks) repo_cache w =
     (case map_of task ''repo'' of
        None \<Rightarrow> (Inl (KeyError ''repo''), w)
      | Some (JOther _) \<Rightarrow> (Inl AttributeError, w)
      | Some (JStr repo) \<Rightarrow>
          if repo_cache repo \<noteq> None
          then prepare_loop e cache_dir local_cache_dir skip_missing_repo tasks repo_cache w
          else if truthy local_cache_dir
          then (let local_path = find (is_git_repo_path (fs w)) (candidates (the local_cache_dir) repo)
                in if truthy local_path
                   then prepare_loop e cache_dir local_cache_dir skip_missing_repo tasks
                          (repo_cache(repo \<mapsto> abspath e (the local_path))) w
                   else prepare_loop e cache_dir local_cache_dir skip_missing_repo tasks repo_cache w)
          else (let repo_url = ''https://github.com/'' @ repo @ ''.git'';
                    local_path = join cache_dir [replace_slash repo]
                in case run_command e [''git'', ''clone'', repo_url, local_path] w of
                     (Inr _, w') \<Rightarrow>
                       prepare_loop e cache_dir local_cache_dir skip_missing_repo tasks
                         (repo_cache(repo \<mapsto> local_path)) w'
                   | (Inl _, w') \<Rightarrow>
                       prepare_loop e cache_dir local_cache_dir skip_missing_repo tasks repo_cache w'))"

definition prepare_repo_cache ::
  "env \<Rightarrow> task list \<Rightarrow> string \<Rightarrow> string option \<Rightarrow> bool \<Rightarrow> world
     \<Rightarrow> (exn + (string \<rightharpoonup> string)) \<times> world" where
  "prepare_repo_cache e tasks cache_dir local_cache_dir skip_missing_repo w =
     and_then (makedirs cache_dir w)
       (\<lambda>_ w1. prepare_loop e cache_dir local_cache_dir skip_missing_repo tasks Map.empty w1)"

section \<open>One task\<close>

definition materialize :: "env \<Rightarrow> string \<Rightarrow> string \<Rightarrow> world \<Rightarrow> (exn + unit) \<times> world" where
  \<comment> \<open>copy a cache entry that has a working tree, clone any other\<close>
  "materialize e cached_repo repo_dir w =
     (if isdir (fs w) (join cached_repo [''.git''])
      then (case copytree e cached_repo repo_dir (fs w) of
              (ok, f) \<Rightarrow>
                (let w' = w\<lparr>fs := f, log := log w @ [Copytree cached_repo repo_dir]\<rparr>
                 in if ok then (Inr (), w') else (Inl (CopyError repo_dir), w')))
      else and_then (run_command e [''git'', ''clone'', cached_repo, repo_dir] w)
             (\<lambda>_ w'. (Inr (), w')))"

definition try_body ::
  "env \<Rightarrow> task \<Rightarrow> jval \<Rightarrow> jval \<Rightarrow> string \<Rightarrow> (string \<rightharpoonup> string) \<Rightarrow> world \<Rightarrow> (exn + task) \<times> world" where
  \<comment> \<open>the \<^verbatim>\<open>try\<close> block of \<^verbatim>\<open>process_repo_task\<close>. A repository name that is no string is
      not a key of the cache; a revision that is no string is refused by \<^verbatim>\<open>subprocess\<close>.\<close>
  "try_body e task repo base_commit repo_dir repo_cache w =
     (let cached_repo = (case repo of JStr r \<Rightarrow> repo_cache r | JOther _ \<Rightarrow> None)
      in if \<not> truthy cached_repo \<or> \<not> exists (fs w) (the cached_repo)
         then (Inl (RuntimeError ''Missing cached repo''), w)
         else and_then (materialize e (the cached_repo) repo_dir w)
           (\<lambda>_ w1. and_then
              (run_command e [''git'', ''config'', ''--global'', ''--add'', ''safe.directory'', repo_dir] w1)
           (\<lambda>_ w2. and_then
              (cd e repo_dir
                 (\<lambda>w. case base_commit of
                         JStr c \<Rightarrow> run_command e [''git'', ''checkout'', c] w
                       | JOther _ \<Rightarrow> (Inl TypeError, w)) w2)
           (\<lambda>_ w3. and_then (get_version_by_git e repo_dir w3)
           (\<lambda>version w4. (Inr (AList.update ''version'' (JStr version) task), w4))))))"

definition process_repo_task ::
  "env \<Rightarrow> task \<Rightarrow> string \<Rightarrow> (string \<rightharpoonup> string) \<Rightarrow> world \<Rightarrow> (exn + task option) \<times> world" where
  \<comment> \<open>\<open>Inl\<close>: the call raises; \<open>Inr None\<close>: it returns \<^verbatim>\<open>None\<close>\<close>
  "process_repo_task e task testbed repo_cache w =
     (case map_of task ''instance_id'' of
        None \<Rightarrow> (Inl (KeyError ''instance_id''), w)
      | Some instance_id \<Rightarrow>
     (case map_of task ''repo'' of
        None \<Rightarrow> (Inl (KeyError ''repo''), w)
      | Some repo \<Rightarrow>
     (case map_of task ''base_commit'' of
        None \<Rightarrow> (Inl (KeyError ''base_commit''), w)
      | Some base_commit \<Rightarrow>
     (case instance_id of
        JOther _ \<Rightarrow> (Inl TypeError, w)
      | JStr iid \<Rightarrow>
          (let repo_dir = join testbed [iid];
               w1 = (if exists (fs w) repo_dir then rmtree e repo_dir w else w)
           in case try_body e task repo base_commit repo_dir repo_cache w1 of
                (r, w2) \<Rightarrow>
                  (let w3 = rmtree e repo_dir w2
                   in case r of
                        Inl x \<Rightarrow> (Inr None, w3)
                      | Inr result \<Rightarrow> (Inr (Some result), w3)))))))"

section \<open>All tasks\<close>

fun run_tasks ::
  "env \<Rightarrow> string \<Rightarrow> (string \<rightharpoonup> string) \<Rightarrow> task list \<Rightarrow> world
     \<Rightarrow> (task \<times> (exn + task option)) list \<times> world" where
  \<comment> \<open>the futures with their tasks, in the order in which they complete; the workers are
      taken to run one task after the other in that order\<close>
  "run_tasks e testbed repo_cache [] w = ([], w)"
| "run_tasks e testbed repo_cache (t # ts) w =
     (case process_repo_task e t testbed repo_cache w of
        (r, w1) \<Rightarrow> (case run_tasks e testbed repo_cache ts w1 of
                      (rs, w2) \<Rightarrow> ((t, r) # rs, w2)))"

fun collect ::
  "(task \<times> (exn + task option)) list \<Rightarrow> task list \<Rightarrow> task list \<Rightarrow> exn + task list \<times> task list" where
  \<comment> \<open>the loop over the completed futures; the handler's message reads the task's
      \<^verbatim>\<open>instance_id\<close>\<close>
  "collect [] results failures = Inr (results, failures)"
| "collect ((task, future) # rest) results failures =
     (case future of
        Inr (Some result) \<Rightarrow>
          if result \<noteq> [] then collect rest (results @ [result]) failures
          else collect rest results (failures @ [task])
      | Inr None \<Rightarrow> collect rest results (failures @ [task])
      | Inl x \<Rightarrow>
          (case map_of task ''instance_id'' of
             None \<Rightarrow> Inl (KeyError ''instance_id'')
           | Some _ \<Rightarrow> collect rest results (failures @ [task])))"

definition process_repos ::
  "env \<Rightarrow> task list \<Rightarrow> string \<Rightarrow> (string \<rightharpoonup> string) \<Rightarrow> int \<Rightarrow> world
     \<Rightarrow> (exn + task list \<times> task list) \<times> world" where
  "process_repos e tasks testbed repo_cache max_workers w =
     and_then (makedirs testbed w)
       (\<lambda>_ w1. if max_workers \<le> 0 then (Inl ValueError, w1)
                else (case run_tasks e testbed repo_cache
                             (map (\<lambda>i. tasks ! i) (as_completed e (length tasks))) w1 of
                        (futures, w2) \<Rightarrow> (collect futures [] [], w2)))"

section \<open>Writing the results\<close>

definition style_of :: "string \<Rightarrow> style" where
  \<comment> \<open>the test on the suffix that \<^verbatim>\<open>get_instances\<close> and \<^verbatim>\<open>save_results\<close> both make\<close>
  "style_of path = (if endswith path ''.jsonl'' \<or> endswith path ''.jsonl.all'' then Lines else Array)"

definition get_instances :: "env \<Rightarrow> string \<Rightarrow> world \<Rightarrow> exn + task list" where
  "get_instances e instance_path w = read_json e instance_path (style_of instance_path) (fs w)"

definition open_write :: "string \<Rightarrow> style \<Rightarrow> task list \<Rightarrow> world \<Rightarrow> (exn + unit) \<times> world" where
  "open_write path st records w =
     (if isdir (fs w) path then (Inl (IsADirectoryError path), w)
      else (Inr (), w\<lparr>fs := (fs w)(path \<mapsto> File), log := log w @ [Write path st records]\<rparr>))"

definition save_results :: "task list \<Rightarrow> string \<Rightarrow> world \<Rightarrow> (exn + unit) \<times> world" where
  "save_results results output_path w =
     and_then (makedirs (dirname output_path) w)
       (\<lambda>_ w1. open_write output_path (style_of output_path) results w1)"

definition generate_output_path :: "string \<Rightarrow> string \<Rightarrow> string" where
  "generate_output_path instance_path suffix =
     (case splitext instance_path of (base, ext) \<Rightarrow> base @ suffix @ ext)"

section \<open>The whole run\<close>

record args =
  instance_path :: string
  testbed :: string
  local_cache_dir :: "string option"
  skip_missing_repo :: bool
  max_workers :: int

definition required_keys :: "string list" where
  "required_keys = [''repo'', ''base_commit'', ''instance_id'']"

definition has_required_keys :: "task \<Rightarrow> bool" where
  \<comment> \<open>\<^verbatim>\<open>required_keys.issubset(t)\<close>\<close>
  "has_required_keys t = (\<forall>k \<in> set required_keys. map_of t k \<noteq> None)"

definition in_cache :: "(string \<rightharpoonup> string) \<Rightarrow> task \<Rightarrow> bool" where
  \<comment> \<open>\<^verbatim>\<open>t["repo"] in repo_cache\<close>\<close>
  "in_cache repo_cache t = (case map_of t ''repo'' of Some (JStr r) \<Rightarrow> repo_cache r \<noteq> None | _ \<Rightarrow> False)"

definition main :: "env \<Rightarrow> args \<Rightarrow> world \<Rightarrow> (exn + (task list \<times> task list) option) \<times> world" where
  \<comment> \<open>\<open>Inr None\<close>: one of the two early returns; \<open>Inr (Some (results, failures))\<close>: the run
      reached its end\<close>
  "main e a w =
     (case get_instances e (instance_path a) w of
        Inl _ \<Rightarrow> (Inr None, w)
      | Inr tasks \<Rightarrow>
          if \<exists>t \<in> set tasks. \<not> has_required_keys t then (Inr None, w)
          else and_then
                 (prepare_repo_cache e tasks (join (testbed a) [''_cache'']) (local_cache_dir a)
                    (skip_missing_repo a) w)
            (\<lambda>repo_cache w1.
               let tasks' = (if truthy (local_cache_dir a) \<and> skip_missing_repo a
                             then filter (in_cache repo_cache) tasks else tasks)
               in and_then (process_repos e tasks' (testbed a) repo_cache (max_workers a) w1)
            (\<lambda>(results, failures) w2.
               and_then (save_results results (generate_output_path (instance_path a) ''_versions'') w2)
            (\<lambda>_ w3.
               and_then (if failures \<noteq> []
                         then save_results failures (generate_output_path (instance_path a) ''_failures'') w3
                         else (Inr (), w3))
            (\<lambda>_ w4. (Inr (Some (results, failures)), w4))))))"

section \<open>Notions used by the statements\<close>

text \<open>
  A task is well formed when it has the three required keys and its \<^verbatim>\<open>instance_id\<close> is a
  string; its staging directory is then the path that \<^verbatim>\<open>process_repo_task\<close> calls
  \<^verbatim>\<open>repo_dir\<close>.
\<close>

definition well_formed :: "task \<Rightarrow> bool" where
  "well_formed t =
     (has_required_keys t \<and> (case map_of t ''instance_id'' of Some (JStr _) \<Rightarrow> True | _ \<Rightarrow> False))"

definition staging_dir :: "string \<Rightarrow> task \<Rightarrow> string" where
  "staging_dir tb t =
     (case map_of t ''instance_id'' of Some (JStr iid) \<Rightarrow> join tb [iid] | _ \<Rightarrow> [])"

definition describe_cmd :: "string list" where
  "describe_cmd = [''git'', ''describe'', ''--tags'']"

section \<open>An example run\<close>

text \<open>
  The scenario of the specification: one task for the repository \<^verbatim>\<open>o/r\<close>, whose cache
  entry has a working tree, and a git that answers the describe query with a given tag.
\<close>

definition ex_fs :: filesys where
  "ex_fs p = (if p \<in> set [''/tb'', ''/cache'', ''/cache/o__r'', ''/cache/o__r/.git'', ''/work''] then Some Dir else None)"

definition ex_task :: task where
  "ex_task = [(''instance_id'', JStr ''o__r-1''), (''repo'', JStr ''o/r''), (''base_commit'', JStr ''abc123'')]"

definition ex_git :: "string \<Rightarrow> string list \<Rightarrow> string \<Rightarrow> filesys \<Rightarrow> string option \<times> filesys" where
  "ex_git tag cmd d f =
     (if cmd = describe_cmd then (Some tag, f)
      else if take 2 cmd = [''git'', ''clone''] then (Some [], f(cmd ! 3 \<mapsto> Dir))
      else (Some [], f))"

definition ex_copytree :: "string \<Rightarrow> string \<Rightarrow> filesys \<Rightarrow> bool \<times> filesys" where
  "ex_copytree src dst f = (True, f(dst \<mapsto> Dir, dst @ ''/.git'' \<mapsto> Dir))"

definition ex_env :: "string \<Rightarrow> env" where
  "ex_env tag = \<lparr>subprocess_run = ex_git tag, copytree = ex_copytree, undeletable = (\<lambda>_. False),
     expanduser = (\<lambda>p. p), abspath = (\<lambda>p. p), read_json = (\<lambda>p st f. Inr [ex_task]),
     as_completed = (\<lambda>n. rev [0..<n])\<rparr>"

definition ex_world :: world where
  "ex_world = \<lparr>cwd = ''/work'', fs = ex_fs, log = []\<rparr>"

definition ex_cache :: "string \<rightharpoonup> string" where
  "ex_cache = [''o/r'' \<mapsto> ''/cache/o__r'']"

section \<open>The version pattern: lemmas\<close>

lemma is_digit_dot: "\<not> is_digit (CHR ''.'')"
  by (simp add: is_digit_def)

lemma match_here_shape:
  assumes "match_here s = Some g"
  shows "\<exists>d1 d2 rest. g = d1 @ ''.'' @ d2 \<and> d1 \<noteq> [] \<and> d2 \<noteq> [] \<and>
           list_all is_digit d1 \<and> list_all is_digit d2 \<and> s = g @ rest"
proof -
  let ?major = "takeWhile is_digit s" and ?rest = "dropWhile is_digit s"
  from assms have major: "?major \<noteq> []"
    by (auto simp: match_here_def Let_def split: if_splits)
  from assms major obtain rest' where rest: "?rest = CHR ''.'' # rest'"
    by (auto simp: match_here_def Let_def split: if_splits list.splits)
  let ?minor = "takeWhile is_digit rest'"
  from assms major rest have minor: "?minor \<noteq> []" and g: "g = ?major @ ''.'' @ ?minor"
    by (auto simp: match_here_def Let_def split: if_splits)
  have "s = ?major @ ?rest" by simp
  also have "\<dots> = ?major @ CHR ''.'' # (?minor @ dropWhile is_digit rest')"
    by (simp add: rest)
  finally have "s = g @ dropWhile is_digit rest'" by (simp add: g)
  moreover have "list_all is_digit ?major" "list_all is_digit ?minor"
    by (simp_all add: list_all_iff) (meson set_takeWhileD)+
  ultimately show ?thesis using major minor g by blast
qed

lemma full_major_minor_shape:
  assumes "d1 \<noteq> []" "d2 \<noteq> []" "list_all is_digit d1" "list_all is_digit d2"
  shows "full_major_minor (d1 @ ''.'' @ d2)"
  unfolding full_major_minor_def
proof (rule bexI [where x = "length d1"])
  show "length d1 \<in> {1..length (d1 @ ''.'' @ d2)}" using assms by (cases d1) auto
  show "length d1 + 1 < length (d1 @ ''.'' @ d2) \<and> list_all is_digit (take (length d1) (d1 @ ''.'' @ d2)) \<and>
    (d1 @ ''.'' @ d2) ! length d1 = CHR ''.'' \<and> list_all is_digit (drop (length d1 + 1) (d1 @ ''.'' @ d2))"
    using assms by (cases d2) (auto simp: nth_append)
qed

lemma version_search_full: "version_search s = Some g \<Longrightarrow> full_major_minor g"
proof (induction s)
  case Nil
  then show ?case by simp
next
  case (Cons c cs)
  show ?case
  proof (cases "match_here (c # cs)")
    case None
    with Cons show ?thesis by simp
  next
    case (Some h)
    with Cons.prems have "match_here (c # cs) = Some g" by simp
    from match_here_shape [OF this] obtain d1 d2 where
      "g = d1 @ ''.'' @ d2" "d1 \<noteq> []" "d2 \<noteq> []" "list_all is_digit d1" "list_all is_digit d2"
      by blast
    then show ?thesis using full_major_minor_shape [of d1 d2] by simp
  qed
qed

lemma takeWhile_digits_dot:
  assumes "n < length s" "list_all is_digit (take n s)" "s ! n = CHR ''.''"
  shows "takeWhile is_digit s = take n s" "dropWhile is_digit s = CHR ''.'' # drop (Suc n) s"
proof -
  have s: "s = take n s @ CHR ''.'' # drop (Suc n) s"
    using assms(1,3) by (metis id_take_nth_drop)
  have all: "\<And>x. x \<in> set (take n s) \<Longrightarrow> is_digit x"
    using assms(2) by (simp add: list_all_iff)
  show "takeWhile is_digit s = take n s"
    by (subst s, subst takeWhile_append2) (use all in \<open>simp_all add: is_digit_dot\<close>)
  show "dropWhile is_digit s = CHR ''.'' # drop (Suc n) s"
    by (subst s, subst dropWhile_append2) (use all in \<open>simp_all add: is_digit_dot\<close>)
qed

lemma match_here_None_iff: "match_here s = None \<longleftrightarrow> \<not> major_minor_at s"
proof
  assume none: "match_here s = None"
  show "\<not> major_minor_at s"
  proof
    assume "major_minor_at s"
    then obtain n m where nm: "1 \<le> n" "1 \<le> m" "n + 1 + m \<le> length s"
      "list_all is_digit (take n s)" "s ! n = CHR ''.''"
      "list_all is_digit (take m (drop (n + 1) s))"
      by (auto simp: major_minor_at_def)
    then have n: "n < length s" by simp
    note tw = takeWhile_digits_dot [OF n nm(4,5)]
    from nm have ne: "drop (Suc n) s \<noteq> []" by simp
    then obtain x xs where x: "drop (Suc n) s = x # xs" by (cases "drop (Suc n) s") auto
    with nm(2,6) have "is_digit x" by (cases m) auto
    with x have "takeWhile is_digit (drop (Suc n) s) \<noteq> []" by simp
    moreover from nm(1) n have "take n s \<noteq> []" by (cases s) auto
    ultimately have "match_here s \<noteq> None"
      by (simp add: match_here_def tw Let_def)
    with none show False by simp
  qed
next
  assume no: "\<not> major_minor_at s"
  show "match_here s = None"
  proof (rule ccontr)
    assume "match_here s \<noteq> None"
    then obtain g where "match_here s = Some g" by auto
    from match_here_shape [OF this] obtain d1 d2 rest where
      g: "g = d1 @ ''.'' @ d2" "d1 \<noteq> []" "d2 \<noteq> []" "list_all is_digit d1" "list_all is_digit d2"
      and s: "s = g @ rest" by blast
    have "length d1 \<in> {1..length s}" "length d2 \<in> {1..length s}"
      using g s by (auto simp: Suc_le_eq)
    moreover have "length d1 + 1 + length d2 \<le> length s" using g s by simp
    moreover have "take (length d1) s = d1" "s ! length d1 = CHR ''.''"
      "take (length d2) (drop (length d1 + 1) s) = d2"
      using g s by (simp_all add: nth_append)
    ultimately have "major_minor_at s"
      unfolding major_minor_at_def using g(4,5) by (metis (no_types, lifting))
    with no show False by simp
  qed
qed

lemma pattern_occurs_Nil: "\<not> pattern_occurs []"
  by (simp add: pattern_occurs_def major_minor_at_def)

lemma bex_upto_Suc: "(\<exists>i \<in> {0..Suc n}. Q i) \<longleftrightarrow> Q 0 \<or> (\<exists>i \<in> {0..n}. Q (Suc i))"
proof
  assume "\<exists>i \<in> {0..Suc n}. Q i"
  then obtain i where "i \<le> Suc n" "Q i" by auto
  then show "Q 0 \<or> (\<exists>i \<in> {0..n}. Q (Suc i))" by (cases i) auto
next
  assume "Q 0 \<or> (\<exists>i \<in> {0..n}. Q (Suc i))"
  then show "\<exists>i \<in> {0..Suc n}. Q i" by force
qed

lemma pattern_occurs_Cons: "pattern_occurs (c # cs) \<longleftrightarrow> major_minor_at (c # cs) \<or> pattern_occurs cs"
  unfolding pattern_occurs_def using bex_upto_Suc [of "length cs" "\<lambda>i. major_minor_at (drop i (c # cs))"]
  by simp

lemma version_search_None_iff: "version_search s = None \<longleftrightarrow> \<not> pattern_occurs s"
proof (induction s)
  case Nil
  show ?case by (simp add: pattern_occurs_Nil)
next
  case (Cons c cs)
  show ?case
  proof (cases "match_here (c # cs)")
    case None
    with Cons match_here_None_iff [of "c # cs"] show ?thesis
      by (simp add: pattern_occurs_Cons)
  next
    case (Some g)
    with match_here_None_iff [of "c # cs"] show ?thesis
      by (simp add: pattern_occurs_Cons)
  qed
qed

section \<open>Running one task: lemmas\<close>

lemma and_then_Inr_iff:
  "and_then m f = (Inr b, w') \<longleftrightarrow> (\<exists>a w1. m = (Inr a, w1) \<and> f a w1 = (Inr b, w'))"
  by (cases m; cases "fst m") (auto simp: and_then_def)

lemma and_then_Inl_iff:
  "and_then m f = (Inl x, w') \<longleftrightarrow> m = (Inl x, w') \<or> (\<exists>a w1. m = (Inr a, w1) \<and> f a w1 = (Inl x, w'))"
  by (cases m; cases "fst m") (auto simp: and_then_def)

lemma chdir_Inr_iff:
  "chdir p w = (Inr u, w') \<longleftrightarrow> isdir (fs w) p \<and> w' = w\<lparr>cwd := p, log := log w @ [Chdir p]\<rparr>"
  by (auto simp: chdir_def)

lemma chdir_Inl_iff:
  "chdir p w = (Inl x, w') \<longleftrightarrow> \<not> isdir (fs w) p \<and> x = FileNotFoundError p \<and> w' = w"
  by (auto simp: chdir_def)

lemma cd_InrD:
  assumes "cd e d body w = (Inr a, w')"
  shows "\<exists>w1 w2. body w1 = (Inr a, w2)"
proof -
  from assms obtain w1 where
    rest: "(case body w1 of
             (r, w2) \<Rightarrow> (case chdir (cwd w) w2 of
                            (Inl x, w3) \<Rightarrow> (Inl x, w3)
                          | (Inr _, w3) \<Rightarrow> (r, w3))) = (Inr a, w')"
    by (auto simp: cd_def Let_def and_then_Inr_iff)
  obtain r w2 where b: "body w1 = (r, w2)" by (cases "body w1")
  obtain r' w3 where c: "chdir (cwd w) w2 = (r', w3)" by (cases "chdir (cwd w) w2")
  from rest b c have "r = Inr a" by (cases r') auto
  with b show ?thesis by blast
qed

lemma run_command_InrD:
  "run_command e cmd w = (Inr out, w') \<Longrightarrow> fst (subprocess_run e cmd (cwd w) (fs w)) = Some out"
  by (auto simp: run_command_def Let_def split: prod.splits option.splits)

lemma get_version_InrD:
  assumes "get_version_by_git e d w = (Inr v, w')"
  shows "\<exists>out c f. fst (subprocess_run e describe_cmd c f) = Some out \<and> version_search (strip out) = Some v"
proof -
  from assms obtain w1 w2 where
    "and_then (run_command e describe_cmd w1)
       (\<lambda>stdout w2. let version = strip stdout
          in (case version_search version of
                Some g \<Rightarrow> (Inr g, w2)
              | None \<Rightarrow> (Inl (RuntimeError (''Unrecognized version: '' @ version)), w2))) = (Inr v, w2)"
    unfolding get_version_by_git_def describe_cmd_def
    by (auto split: if_splits dest!: cd_InrD)
  then obtain out w3 where "run_command e describe_cmd w1 = (Inr out, w3)"
    and "version_search (strip out) = Some v"
    by (auto simp: and_then_Inr_iff Let_def split: option.splits)
  then show ?thesis by (blast dest: run_command_InrD)
qed

lemma try_body_InrD:
  assumes "try_body e task repo base_commit repo_dir repo_cache w = (Inr r, w')"
  shows "\<exists>v out c f. r = AList.update ''version'' (JStr v) task \<and>
           fst (subprocess_run e describe_cmd c f) = Some out \<and> version_search (strip out) = Some v"
proof -
  from assms obtain v w3 w4 where "get_version_by_git e repo_dir w3 = (Inr v, w4)"
    and "r = AList.update ''version'' (JStr v) task"
    by (auto simp: try_body_def Let_def and_then_Inr_iff split: if_splits)
  then show ?thesis by (blast dest: get_version_InrD)
qed

lemma process_repo_task_well_formed:
  assumes "well_formed task"
  shows "process_repo_task e task tb repo_cache w =
     (let repo_dir = staging_dir tb task;
          w1 = (if exists (fs w) repo_dir then rmtree e repo_dir w else w)
      in case try_body e task (the (map_of task ''repo'')) (the (map_of task ''base_commit''))
                repo_dir repo_cache w1 of
           (r, w2) \<Rightarrow> (case r of Inl x \<Rightarrow> Inr None | Inr result \<Rightarrow> Inr (Some result),
                         rmtree e repo_dir w2))"
  using assms
  by (auto simp: well_formed_def has_required_keys_def required_keys_def process_repo_task_def
      staging_dir_def Let_def split: option.splits jval.splits prod.splits sum.splits)

lemma process_repo_task_SomeD:
  assumes "fst (process_repo_task e task tb repo_cache w) = Inr (Some result)"
  shows "\<exists>repo base_commit repo_dir w1 w2.
           try_body e task repo base_commit repo_dir repo_cache w1 = (Inr result, w2)"
  using assms unfolding process_repo_task_def
  by (auto simp: Let_def split: option.splits jval.splits prod.splits sum.splits; blast)

text \<open>
  Claim C1. Whenever \<^verbatim>\<open>process_repo_task\<close> returns a record, that record is the task with
  the key \<^verbatim>\<open>version\<close> assigned, and the value assigned is digits, a dot and digits and
  nothing else; when git answers the describe query with \<^verbatim>\<open>v2.3.1\<close>, the value is
  \<^verbatim>\<open>2.3\<close>.
\<close>

theorem success_record_version:
  assumes "fst (process_repo_task e task tb repo_cache w) = Inr (Some result)"
  shows "\<exists>v. result = AList.update ''version'' (JStr v) task \<and> full_major_minor v \<and>
           ((\<forall>c f. fst (subprocess_run e describe_cmd c f) = Some ''v2.3.1'') \<longrightarrow> v = ''2.3'')"
proof -
  from process_repo_task_SomeD [OF assms] obtain v out c f where
    r: "result = AList.update ''version'' (JStr v) task"
    and out: "fst (subprocess_run e describe_cmd c f) = Some out"
    and v: "version_search (strip out) = Some v"
    by (blast dest: try_body_InrD)
  have "version_search (strip ''v2.3.1'') = Some ''2.3''"
    by code_simp
  with out v have "(\<forall>c f. fst (subprocess_run e describe_cmd c f) = Some ''v2.3.1'') \<longrightarrow> v = ''2.3''"
    by auto
  with r v show ?thesis by (blast intro: version_search_full)
qed

lemmas model_defs =
  process_repo_task_def try_body_def materialize_def get_version_by_git_def cd_def chdir_def
  run_command_def and_then_def rmtree_def exists_def isdir_def isfile_def under_def truthy_def
  join_def join2_def startswith_def endswith_def

lemmas ex_defs = ex_env_def ex_git_def ex_copytree_def ex_world_def ex_fs_def ex_task_def ex_cache_def
  describe_cmd_def

lemma search_v231: "version_search (strip ''v2.3.1'') = Some ''2.3''"
  by code_simp

lemma ex_run:
  "fst (process_repo_task (ex_env ''v2.3.1'') ex_task ''/tb'' ex_cache ex_world) =
     Inr (Some (ex_task @ [(''version'', JStr ''2.3'')]))"
  by (simp add: model_defs ex_defs Let_def search_v231)

text \<open>The example run is such a success.\<close>

theorem success_record_version_witness:
  "fst (process_repo_task (ex_env ''v2.3.1'') ex_task ''/tb'' ex_cache ex_world) =
     Inr (Some (ex_task @ [(''version'', JStr ''2.3'')])) \<and>
   (\<exists>v. ex_task @ [(''version'', JStr ''2.3'')] = AList.update ''version'' (JStr v) ex_task \<and>
        full_major_minor v \<and> v = ''2.3'')"
proof -
  have "\<forall>c f. fst (subprocess_run (ex_env ''v2.3.1'') describe_cmd c f) = Some ''v2.3.1''"
    by (simp add: ex_env_def ex_git_def)
  with success_record_version [OF ex_run] ex_run show ?thesis by blast
qed

lemma search_weird: "version_search (strip ''weird-tag-no-version'') = None"
  by code_simp

lemma get_version_reached:
  assumes "isdir (fs w) d" "isdir (fs w) (expanduser e d)"
    and "subprocess_run e describe_cmd (expanduser e d) (fs w) = (Some out, f)"
    and "isdir f (cwd w)"
  shows "fst (get_version_by_git e d w) =
           (case version_search (strip out) of
              Some g \<Rightarrow> Inr g
            | None \<Rightarrow> Inl (RuntimeError (''Unrecognized version: '' @ strip out)))"
  using assms
  by (simp add: get_version_by_git_def cd_def chdir_def run_command_def and_then_def describe_cmd_def
      Let_def split: option.splits)

lemma process_repo_task_no_raise:
  assumes "well_formed task"
  shows "fst (process_repo_task e task tb rc w) \<noteq> Inl x"
  by (simp add: process_repo_task_well_formed [OF assms] Let_def split: prod.splits sum.splits)

text \<open>
  Claim C3. Once the describe query has returned an output, \<^verbatim>\<open>get_version_by_git\<close> raises
  \<^verbatim>\<open>RuntimeError("Unrecognized version: ...")\<close> exactly when the pattern occurs nowhere in
  the stripped output, and returns a version otherwise. With the output
  \<^verbatim>\<open>weird-tag-no-version\<close> a well-formed task ends as \<^verbatim>\<open>None\<close>, which the collecting loop
  appends to the failures.
\<close>

theorem unrecognized_version:
  "(isdir (fs w) d \<and> isdir (fs w) (expanduser e d) \<and>
    subprocess_run e describe_cmd (expanduser e d) (fs w) = (Some out, f) \<and> isdir f (cwd w)
      \<longrightarrow> (fst (get_version_by_git e d w) = Inl (RuntimeError (''Unrecognized version: '' @ strip out)))
             = (\<not> pattern_occurs (strip out))
          \<and> (pattern_occurs (strip out) \<longrightarrow> (\<exists>v. fst (get_version_by_git e d w) = Inr v)))
   \<and> ((\<forall>c f. fst (subprocess_run e describe_cmd c f) = Some ''weird-tag-no-version'') \<and> well_formed task
      \<longrightarrow> fst (process_repo_task e task tb rc w0) = Inr None
          \<and> collect ((task, fst (process_repo_task e task tb rc w0)) # rest) rs fls
              = collect rest rs (fls @ [task]))"
proof (intro conjI impI)
  assume a: "isdir (fs w) d \<and> isdir (fs w) (expanduser e d) \<and>
    subprocess_run e describe_cmd (expanduser e d) (fs w) = (Some out, f) \<and> isdir f (cwd w)"
  then have r: "fst (get_version_by_git e d w) =
           (case version_search (strip out) of
              Some g \<Rightarrow> Inr g
            | None \<Rightarrow> Inl (RuntimeError (''Unrecognized version: '' @ strip out)))"
    by (intro get_version_reached) auto
  show "(fst (get_version_by_git e d w) = Inl (RuntimeError (''Unrecognized version: '' @ strip out)))
             = (\<not> pattern_occurs (strip out))"
    using version_search_None_iff [of "strip out"]
    by (cases "version_search (strip out)") (auto simp: r)
  show "\<exists>v. fst (get_version_by_git e d w) = Inr v" if "pattern_occurs (strip out)"
  proof (cases "version_search (strip out)")
    case None
    with that version_search_None_iff [of "strip out"] show ?thesis by simp
  next
    case (Some g)
    then show ?thesis by (simp add: r)
  qed
next
  assume a: "(\<forall>c f. fst (subprocess_run e describe_cmd c f) = Some ''weird-tag-no-version'') \<and> well_formed task"
  show none: "fst (process_repo_task e task tb rc w0) = Inr None"
  proof (cases "fst (process_repo_task e task tb rc w0)")
    case (Inl x)
    with a process_repo_task_no_raise [of task e tb rc w0 x] show ?thesis by simp
  next
    case (Inr r)
    show ?thesis
    proof (cases r)
      case None
      with Inr show ?thesis by simp
    next
      case (Some res)
      with Inr have "fst (process_repo_task e task tb rc w0) = Inr (Some res)" by simp
      from process_repo_task_SomeD [OF this] obtain v out c f where
        "fst (subprocess_run e describe_cmd c f) = Some out" "version_search (strip out) = Some v"
        by (blast dest: try_body_InrD)
      with a search_weird show ?thesis by simp
    qed
  qed
  show "collect ((task, fst (process_repo_task e task tb rc w0)) # rest) rs fls
              = collect rest rs (fls @ [task])"
    by (simp add: none)
qed

text \<open>The example run with that describe output.\<close>

lemma strip_weird: "strip ''weird-tag-no-version'' = ''weird-tag-no-version''"
  by code_simp

lemma ex_weird_reached:
  "isdir (fs ex_world) ''/tb'' \<and> isdir (fs ex_world) (expanduser (ex_env ''weird-tag-no-version'') ''/tb'') \<and>
   subprocess_run (ex_env ''weird-tag-no-version'') describe_cmd
     (expanduser (ex_env ''weird-tag-no-version'') ''/tb'') (fs ex_world)
     = (Some ''weird-tag-no-version'', ex_fs) \<and>
   isdir ex_fs (cwd ex_world)"
  by (simp add: ex_defs isdir_def)

lemma ex_weird_always:
  "(\<forall>c f. fst (subprocess_run (ex_env ''weird-tag-no-version'') describe_cmd c f)
            = Some ''weird-tag-no-version'') \<and> well_formed ex_task"
  by (simp add: ex_defs well_formed_def has_required_keys_def required_keys_def)

theorem unrecognized_version_witness:
  "fst (get_version_by_git (ex_env ''weird-tag-no-version'') ''/tb'' ex_world)
     = Inl (RuntimeError ''Unrecognized version: weird-tag-no-version'') \<and>
   \<not> pattern_occurs ''weird-tag-no-version'' \<and>
   fst (process_repo_task (ex_env ''weird-tag-no-version'') ex_task ''/tb'' ex_cache ex_world) = Inr None \<and>
   collect [(ex_task, fst (process_repo_task (ex_env ''weird-tag-no-version'') ex_task ''/tb''
              ex_cache ex_world))] [] [] = Inr ([], [ex_task])"
proof -
  have np: "\<not> pattern_occurs (strip ''weird-tag-no-version'')"
    using version_search_None_iff [of "strip ''weird-tag-no-version''"] search_weird by simp
  note t = unrecognized_version [of ex_world "''/tb''" "ex_env ''weird-tag-no-version''"
      "''weird-tag-no-version''" ex_fs ex_task "''/tb''" ex_cache ex_world "[]" "[]" "[]"]
  from t ex_weird_reached np
  have 1: "fst (get_version_by_git (ex_env ''weird-tag-no-version'') ''/tb'' ex_world)
     = Inl (RuntimeError (''Unrecognized version: '' @ strip ''weird-tag-no-version''))"
    by blast
  from t ex_weird_always
  have 2: "fst (process_repo_task (ex_env ''weird-tag-no-version'') ex_task ''/tb'' ex_cache ex_world) = Inr None"
    by blast
  from 1 2 np show ?thesis by (simp add: strip_weird)
qed

lemma find_None_iff': "find P xs = None \<longleftrightarrow> (\<forall>x \<in> set xs. \<not> P x)"
  by (induction xs) auto

lemma rfind_absent: "c \<notin> set s \<Longrightarrow> rfind c s = -1"
proof -
  assume "c \<notin> set s"
  then have "\<forall>i \<in> set (rev [0..<length s]). s ! i \<noteq> c"
    using nth_mem [of _ s] by auto
  then have "find (\<lambda>i. s ! i = c) (rev [0..<length s]) = None"
    by (simp only: find_None_iff') 
  then show ?thesis by (simp add: rfind_def)
qed

lemma dirname_bare: "CHR ''/'' \<notin> set p \<Longrightarrow> dirname p = []"
  by (simp add: dirname_def rfind_absent)

lemma splitext_append: "splitext p = (base, ext) \<Longrightarrow> base @ ext = p"
  by (auto simp: splitext_def Let_def split: if_splits)

lemma set_generate_output_path:
  "set (generate_output_path p suffix) = set p \<union> set suffix"
proof -
  obtain base ext where s: "splitext p = (base, ext)" by (cases "splitext p")
  from splitext_append [OF s] have "set p = set base \<union> set ext" by auto
  with s show ?thesis by (auto simp: generate_output_path_def)
qed

text \<open>
  Claim C10. For a non-empty list of results and an output path without a slash,
  \<^verbatim>\<open>save_results\<close> raises \<^verbatim>\<open>FileNotFoundError\<close> for the empty directory name and leaves
  the world as it was; the path that \<^verbatim>\<open>generate_output_path\<close> derives from a bare file name
  is such a path.
\<close>

theorem bare_filename_raises:
  assumes "results \<noteq> []" and "CHR ''/'' \<notin> set output_path"
  shows "save_results results output_path w = (Inl (FileNotFoundError []), w) \<and>
         (CHR ''/'' \<notin> set path \<and> CHR ''/'' \<notin> set suffix \<longrightarrow>
           save_results results (generate_output_path path suffix) w = (Inl (FileNotFoundError []), w))"
  using assms(2)
  by (simp add: save_results_def dirname_bare makedirs_def and_then_def set_generate_output_path)

text \<open>The example task, saved under a bare file name.\<close>

theorem bare_filename_raises_witness:
  "[ex_task] \<noteq> [] \<and> CHR ''/'' \<notin> set ''tasks_versions.json'' \<and>
   save_results [ex_task] ''tasks_versions.json'' ex_world = (Inl (FileNotFoundError []), ex_world) \<and>
   save_results [ex_task] (generate_output_path ''tasks.json'' ''_versions'') ex_world
     = (Inl (FileNotFoundError []), ex_world)"
proof -
  have a: "[ex_task] \<noteq> []" and b: "CHR ''/'' \<notin> set ''tasks_versions.json''"
    and c: "CHR ''/'' \<notin> set ''tasks.json'' \<and> CHR ''/'' \<notin> set ''_versions''"
    by simp_all
  from bare_filename_raises [OF a b, of ex_world "''tasks.json''" "''_versions''"] a b c
  show ?thesis by blast
qed

end
